theory Spec2Isabelle
  imports Complex_Main "HOL-Library.Sublist" "HOL-Library.AList"
begin

section \<open>Python strings\<close>

text \<open>
  A Python \<open>str\<close> is modelled as a \<open>string\<close>; a \<open>char\<close> stands for a code point
  below 256. The functions of this section are the built-in string operations that the
  scripts call, with the behaviour of CPython.
\<close>

text \<open>\<open>sub in s\<close>: \<open>sub\<close> occurs in \<open>s\<close> as a contiguous substring.\<close>

fun contains_str :: "string \<Rightarrow> string \<Rightarrow> bool" where
  "contains_str sub [] = (sub = [])"
| "contains_str sub (c # cs) = (prefix sub (c # cs) \<or> contains_str sub cs)"

text \<open>
  \<open>s.replace(old, new)\<close>: every non-overlapping occurrence of \<open>old\<close>, found from
  left to right, is replaced; the scan continues after the occurrence. For an empty
  \<open>old\<close>, \<open>new\<close> is inserted before every character and at the end.
\<close>

fun replace_str :: "string \<Rightarrow> string \<Rightarrow> string \<Rightarrow> string" where
  "replace_str old new [] = (if old = [] then new else [])"
| "replace_str old new (c # cs) =
     (if old = [] then new @ c # replace_str old new cs
      else if prefix old (c # cs) then new @ replace_str old new (drop (length old - 1) cs)
      else c # replace_str old new cs)"

section \<open>Sample Locator: \<open>find_sample_pairs\<close> (run\_all\_sequenza.py)\<close>

text \<open>
  A path is the list of its components, so \<open>base_dir / name\<close> is \<open>base_dir @ [name]\<close>.
  \<open>base_dir.iterdir()\<close> is the list of the directory's entries in the order the
  operating system yields them; for each entry, \<open>is_dir\<close> is the answer of
  \<open>folder.is_dir()\<close>.
\<close>

type_synonym path = "string list"

record dirent =
  name :: string
  is_dir :: bool

text \<open>
  A Python \<open>dict\<close> keeps its keys in insertion order, and assigning to a key that is
  present keeps the key's position: this is \<open>AList.update\<close> on an association list.
\<close>

type_synonym 'v dict = "(string \<times> 'v) list"

text \<open>The lines \<open>find_sample_pairs\<close> prints, one constructor for each \<open>print\<close>.\<close>

datatype log_line =
    Scanning path
  | Found_Normal string path
  | Found_Tumor string path
  | Matched_Pair string path path
  | Warning_No_Normal string

text \<open>The tuple \<open>(pid, tumours[pid], normals[pid])\<close>.\<close>

type_synonym sample_pair = "string \<times> path \<times> path"

definition patient_id :: "sample_pair \<Rightarrow> string" where
  "patient_id p = fst p"

definition tumor_path :: "sample_pair \<Rightarrow> path" where
  "tumor_path p = fst (snd p)"

definition normal_path :: "sample_pair \<Rightarrow> path" where
  "normal_path p = snd (snd p)"

record scan_state =
  normals :: "path dict"
  tumours :: "path dict"
  printed :: "log_line list"

text \<open>The body of the first loop, for one entry of the directory.\<close>

definition scan_folder :: "path \<Rightarrow> dirent \<Rightarrow> scan_state \<Rightarrow> scan_state" where
  "scan_folder base_dir e st =
     (let folder = base_dir @ [name e] in
      if is_dir e then
        (if contains_str ''Normal'' (name e) then
           (let pid = replace_str ''_Normal'' '''' (name e) in
            st\<lparr>normals := AList.update pid folder (normals st),
               printed := printed st @ [Found_Normal pid folder]\<rparr>)
         else if contains_str ''Tumour'' (name e) \<or> contains_str ''Tumor'' (name e) then
           (let pid = replace_str ''_Tumor'' '''' (replace_str ''_Tumour'' '''' (name e)) in
            st\<lparr>tumours := AList.update pid folder (tumours st),
               printed := printed st @ [Found_Tumor pid folder]\<rparr>)
         else st)
      else st)"

fun scan_folders :: "path \<Rightarrow> dirent list \<Rightarrow> scan_state \<Rightarrow> scan_state" where
  "scan_folders base_dir [] st = st"
| "scan_folders base_dir (e # es) st = scan_folders base_dir es (scan_folder base_dir e st)"

text \<open>
  The second loop, \<open>for pid in tumours\<close>: it runs over the items of the tumour
  dictionary in insertion order, and \<open>tumours[pid]\<close> is the value of the item.
\<close>

fun match_pairs ::
  "path dict \<Rightarrow> (string \<times> path) list \<Rightarrow> sample_pair list \<times> log_line list
     \<Rightarrow> sample_pair list \<times> log_line list" where
  "match_pairs nrm [] acc = acc"
| "match_pairs nrm ((pid, t) # items) (pairs, out) =
     (case map_of nrm pid of
        Some n \<Rightarrow> match_pairs nrm items (pairs @ [(pid, t, n)], out @ [Matched_Pair pid t n])
      | None \<Rightarrow> match_pairs nrm items (pairs, out @ [Warning_No_Normal pid]))"

definition scan_result :: "path \<Rightarrow> dirent list \<Rightarrow> scan_state" where
  "scan_result base_dir entries =
     scan_folders base_dir entries \<lparr>normals = [], tumours = [], printed = [Scanning base_dir]\<rparr>"

text \<open>\<open>find_sample_pairs\<close> returns the pairs; the second component is what it printed.\<close>

definition find_sample_pairs_run :: "path \<Rightarrow> dirent list \<Rightarrow> sample_pair list \<times> log_line list" where
  "find_sample_pairs_run base_dir entries =
     (let st = scan_result base_dir entries in
      match_pairs (normals st) (tumours st) ([], printed st))"

definition find_sample_pairs :: "path \<Rightarrow> dirent list \<Rightarrow> sample_pair list" where
  "find_sample_pairs base_dir entries = fst (find_sample_pairs_run base_dir entries)"

definition find_sample_pairs_log :: "path \<Rightarrow> dirent list \<Rightarrow> log_line list" where
  "find_sample_pairs_log base_dir entries = snd (find_sample_pairs_run base_dir entries)"

subsection \<open>Vocabulary for the properties of the scan\<close>

text \<open>
  The two branches of the first loop as predicates on an entry, the patient id each
  branch derives from the name, the line each entry prints, and the pair and the line
  the second loop produces for an item of the tumour dictionary.
\<close>

definition classed_normal :: "dirent \<Rightarrow> bool" where
  "classed_normal e = (is_dir e \<and> contains_str ''Normal'' (name e))"

definition classed_tumour :: "dirent \<Rightarrow> bool" where
  "classed_tumour e =
     (is_dir e \<and> \<not> contains_str ''Normal'' (name e)
      \<and> (contains_str ''Tumour'' (name e) \<or> contains_str ''Tumor'' (name e)))"

definition normal_pid :: "string \<Rightarrow> string" where
  "normal_pid nm = replace_str ''_Normal'' '''' nm"

definition tumour_pid :: "string \<Rightarrow> string" where
  "tumour_pid nm = replace_str ''_Tumor'' '''' (replace_str ''_Tumour'' '''' nm)"

definition found_line :: "path \<Rightarrow> dirent \<Rightarrow> log_line list" where
  "found_line b e =
     (if classed_normal e then [Found_Normal (normal_pid (name e)) (b @ [name e])]
      else if classed_tumour e then [Found_Tumor (tumour_pid (name e)) (b @ [name e])]
      else [])"

definition pair_of :: "path dict \<Rightarrow> string \<times> path \<Rightarrow> sample_pair option" where
  "pair_of nrm it = map_option (\<lambda>n. (fst it, snd it, n)) (map_of nrm (fst it))"

definition match_line :: "path dict \<Rightarrow> string \<times> path \<Rightarrow> log_line" where
  "match_line nrm it =
     (case map_of nrm (fst it) of
        Some n \<Rightarrow> Matched_Pair (fst it) (snd it) n
      | None \<Rightarrow> Warning_No_Normal (fst it))"

definition derived_pid :: "dirent \<Rightarrow> string option" where
  "derived_pid e =
     (if classed_normal e then Some (normal_pid (name e))
      else if classed_tumour e then Some (tumour_pid (name e))
      else None)"


section \<open>TMB calculator (tmb\_cal.py)\<close>

subsection \<open>More string built-ins\<close>











text \<open>The exceptions the scripts can raise; \<open>CalledProcessError\<close> carries the exit status.\<close>

datatype py_error =
    IndexError
  | ValueError
  | OverflowError
  | CalledProcessError int
  | OSError
  | FileExistsError
  | FileNotFoundError
  | NotADirectoryError
  | IsADirectoryError
  | RuntimeError

subsection \<open>\<open>get_coding_region_size\<close>\<close>









subsection \<open>\<open>count_tmb_mutations\<close>\<close>














section \<open>Files and external commands\<close>

text \<open>
  The file system is an association list from absolute paths to nodes, in the order
  in which a directory listing yields the entries; the root \<open>[]\<close> is a directory. A
  symbolic link holds the absolute path it points to. Symbolic links are followed at
  the last component of a path only: the directory part of a path is taken as resolved.
  Failures of the operating system that do not follow from the nodes (permissions, a
  full disk) are outside the model.
\<close>

datatype node = File | Dir | Link path

type_synonym fs = "(path \<times> node) list"

definition lookup :: "fs \<Rightarrow> path \<Rightarrow> node option" where
  "lookup f p = (if p = [] then Some Dir else map_of f p)"

text \<open>\<open>os.stat\<close>: links are followed, at most 40 of them; \<open>None\<close> is the failure.\<close>

fun follow :: "nat \<Rightarrow> fs \<Rightarrow> path \<Rightarrow> node option" where
  "follow 0 f p = None"
| "follow (Suc n) f p =
     (case lookup f p of
        None \<Rightarrow> None
      | Some (Link t) \<Rightarrow> follow n f t
      | Some File \<Rightarrow> Some File
      | Some Dir \<Rightarrow> Some Dir)"

definition stat :: "fs \<Rightarrow> path \<Rightarrow> node option" where
  "stat f p = follow 41 f p"

text \<open>\<open>Path.exists()\<close> and \<open>Path.is_dir()\<close> follow links: a dangling link does not exist.\<close>

definition path_exists :: "fs \<Rightarrow> path \<Rightarrow> bool" where
  "path_exists f p = (stat f p \<noteq> None)"

definition path_is_dir :: "fs \<Rightarrow> path \<Rightarrow> bool" where
  "path_is_dir f p = (stat f p = Some Dir)"

text \<open>
  \<open>os.mkdir\<close>: the name must be free, whatever node holds it, and the parent must be a
  directory.
\<close>

definition os_mkdir :: "fs \<Rightarrow> path \<Rightarrow> py_error + fs" where
  "os_mkdir f p =
     (if lookup f p \<noteq> None then Inl FileExistsError
      else (case stat f (butlast p) of
              None \<Rightarrow> Inl FileNotFoundError
            | Some Dir \<Rightarrow> Inr (f @ [(p, Dir)])
            | Some _ \<Rightarrow> Inl NotADirectoryError))"

text \<open>\<open>Path.mkdir(exist_ok=True)\<close>: an error of \<open>os.mkdir\<close> is ignored when the path is a directory.\<close>

definition mkdir_exist_ok :: "fs \<Rightarrow> path \<Rightarrow> py_error + fs" where
  "mkdir_exist_ok f p =
     (case os_mkdir f p of
        Inr f' \<Rightarrow> Inr f'
      | Inl e \<Rightarrow> if path_is_dir f p then Inr f else Inl e)"

text \<open>
  \<open>Path.mkdir(parents=True, exist_ok=True)\<close>: on \<open>FileNotFoundError\<close> the parent is
  made first, in the same way, and the directory is made again.
\<close>

function mkdir_parents :: "fs \<Rightarrow> path \<Rightarrow> py_error + fs" where
  "mkdir_parents f p =
     (case os_mkdir f p of
        Inr f' \<Rightarrow> Inr f'
      | Inl e \<Rightarrow>
          if e = FileNotFoundError \<and> p \<noteq> [] then
            (case mkdir_parents f (butlast p) of
               Inl e' \<Rightarrow> Inl e'
             | Inr f' \<Rightarrow> mkdir_exist_ok f' p)
          else if path_is_dir f p then Inr f else Inl e)"
  by pat_completeness auto
termination
  by (relation "measure (\<lambda>(f, p). length p)") auto

declare mkdir_parents.simps [simp del]

text \<open>\<open>Path.unlink()\<close> removes a file or a link; a directory raises.\<close>

definition unlink :: "fs \<Rightarrow> path \<Rightarrow> py_error + fs" where
  "unlink f p =
     (case map_of f p of
        None \<Rightarrow> Inl FileNotFoundError
      | Some Dir \<Rightarrow> Inl IsADirectoryError
      | Some _ \<Rightarrow> Inr (AList.delete p f))"

text \<open>\<open>target.symlink_to(dest)\<close>: the name must be free and the parent a directory.\<close>

definition symlink_to :: "fs \<Rightarrow> path \<Rightarrow> path \<Rightarrow> py_error + fs" where
  "symlink_to f target dest =
     (if lookup f target \<noteq> None then Inl FileExistsError
      else (case stat f (butlast target) of
              None \<Rightarrow> Inl FileNotFoundError
            | Some Dir \<Rightarrow> Inr (f @ [(target, Link dest)])
            | Some _ \<Rightarrow> Inl NotADirectoryError))"

text \<open>
  \<open>Path.resolve()\<close>: the links at the path are followed to the end, and a path that
  is missing resolves to itself; a loop of links raises \<open>RuntimeError\<close>. A chain
  without a loop is no longer than the file system has entries.
\<close>

fun resolve_links :: "nat \<Rightarrow> fs \<Rightarrow> path \<Rightarrow> py_error + path" where
  "resolve_links 0 f p = Inl RuntimeError"
| "resolve_links (Suc n) f p =
     (case lookup f p of
        Some (Link t) \<Rightarrow> resolve_links n f t
      | _ \<Rightarrow> Inr p)"

definition resolve :: "fs \<Rightarrow> path \<Rightarrow> py_error + path" where
  "resolve f p = resolve_links (Suc (length f)) f p"

text \<open>
  \<open>d.glob(pattern)\<close> for a pattern without a directory part: the names of the entries
  of \<open>d\<close> that match, in listing order, and nothing when \<open>d\<close> is no directory.
\<close>

definition children :: "fs \<Rightarrow> path \<Rightarrow> string list" where
  "children f d = map (last \<circ> fst) (filter (\<lambda>(p, nd). p \<noteq> [] \<and> butlast p = d) f)"

definition glob_names :: "fs \<Rightarrow> path \<Rightarrow> (string \<Rightarrow> bool) \<Rightarrow> string list" where
  "glob_names f d matches = (if path_is_dir f d then filter matches (children f d) else [])"

text \<open>The pattern \<open>*.cram\<close> matches the names that end in \<open>.cram\<close>, and \<open>*.*\<close> those with a dot.\<close>

definition matches_cram :: "string \<Rightarrow> bool" where
  "matches_cram n = suffix ''.cram'' n"

definition matches_dotted :: "string \<Rightarrow> bool" where
  "matches_dotted n = (CHR ''.'' \<in> set n)"

text \<open>
  \<open>Path.suffix\<close> of a name: the part from the last dot on, unless that dot is the first
  or the last character. \<open>with_suffix\<close> replaces it, or appends when there is none.
\<close>

definition suffix_of :: "string \<Rightarrow> string" where
  "suffix_of n =
     (let r = takeWhile (\<lambda>c. c \<noteq> CHR ''.'') (rev n) in
      if CHR ''.'' \<in> set n \<and> r \<noteq> [] \<and> length r + 1 < length n then CHR ''.'' # rev r else [])"

definition with_suffix :: "path \<Rightarrow> string \<Rightarrow> path" where
  "with_suffix p sfx =
     butlast p @ [take (length (last p) - length (suffix_of (last p))) (last p) @ sfx]"

text \<open>\<open>str(path)\<close> of an absolute path, and \<open>str(n)\<close> of an integer.\<close>

definition path_str :: "path \<Rightarrow> string" where
  "path_str p = (if p = [] then ''/'' else concat (map (\<lambda>c. CHR ''/'' # c) p))"

function str_nat :: "nat \<Rightarrow> string" where
  "str_nat n = (if n < 10 then [char_of (48 + n)] else str_nat (n div 10) @ [char_of (48 + n mod 10)])"
  by pat_completeness auto
termination
  by (relation "measure id") auto

declare str_nat.simps [simp del]

definition str_int :: "int \<Rightarrow> string" where
  "str_int i = (if i < 0 then CHR ''-'' # str_nat (nat (- i)) else str_nat (nat i))"

text \<open>
  An external command is opaque: for the argument list and the file system it is
  started in, \<open>exec\<close> gives how the process ended and the file system it leaves.
  \<open>Not_Started\<close> is a program that cannot be started, for which \<open>subprocess.run\<close>
  raises an \<open>OSError\<close>.
\<close>

datatype proc_result = Exited int | Not_Started

type_synonym exec = "string list \<Rightarrow> fs \<Rightarrow> proc_result \<times> fs"

text \<open>
  What a run does to the outside, in order: the commands it starts, the files it
  deletes, the links it makes, and the sample the batch loop turns to.
\<close>

datatype event =
    Run_Cmd string "string list"
  | Unlinked path
  | Linked path path
  | Processing string

record world =
  files :: fs
  events :: "event list"

section \<open>Pipeline Driver: \<open>process_sample\<close> (sequenza\_preprocess.py)\<close>

text \<open>
  \<open>run_cmd\<close> prints the description and the command, runs it, and raises
  \<open>CalledProcessError\<close> again after printing when the exit status is not 0.
\<close>

definition run_cmd :: "exec \<Rightarrow> string list \<Rightarrow> string \<Rightarrow> world \<Rightarrow> (py_error + unit) \<times> world" where
  "run_cmd ex cmd description w =
     (let w1 = w\<lparr>events := events w @ [Run_Cmd description cmd]\<rparr> in
      case ex cmd (files w1) of
        (Exited c, f') \<Rightarrow>
          if c = 0 then (Inr (), w1\<lparr>files := f'\<rparr>)
          else (Inl (CalledProcessError c), w1\<lparr>files := f'\<rparr>)
      | (Not_Started, f') \<Rightarrow> (Inl OSError, w1\<lparr>files := f'\<rparr>))"

text \<open>Statements in sequence: the first exception ends the sequence.\<close>

definition and_then ::
  "(py_error + unit) \<times> world \<Rightarrow> (world \<Rightarrow> (py_error + unit) \<times> world)
     \<Rightarrow> (py_error + unit) \<times> world" where
  "and_then r k = (case r of (Inl e, w) \<Rightarrow> (Inl e, w) | (Inr u, w) \<Rightarrow> k w)"

text \<open>
  The loop \<open>for bam_file in [tumor_bam, normal_bam]\<close> of the clean-up, the same in the
  last step and in the handler (where \<open>bam_file\<close> is a local variable once the loop
  has begun): a file that exists is deleted.
\<close>

fun unlink_existing :: "path list \<Rightarrow> world \<Rightarrow> (py_error + unit) \<times> world" where
  "unlink_existing [] w = (Inr (), w)"
| "unlink_existing (bam_file # rest) w =
     (if path_exists (files w) bam_file then
        (case unlink (files w) bam_file of
           Inl e \<Rightarrow> (Inl e, w)
         | Inr f' \<Rightarrow>
             unlink_existing rest (w\<lparr>files := f', events := events w @ [Unlinked bam_file]\<rparr>))
      else unlink_existing rest w)"

definition mkdir_step :: "path \<Rightarrow> world \<Rightarrow> (py_error + unit) \<times> world" where
  "mkdir_step d w =
     (case mkdir_exist_ok (files w) d of
        Inl e \<Rightarrow> (Inl e, w)
      | Inr f' \<Rightarrow> (Inr (), w\<lparr>files := f'\<rparr>))"

text \<open>\<open>next(d.glob("*.cram"), None)\<close>.\<close>

definition first_cram :: "fs \<Rightarrow> path \<Rightarrow> path option" where
  "first_cram f d = (case glob_names f d matches_cram of [] \<Rightarrow> None | n # _ \<Rightarrow> Some (d @ [n]))"

text \<open>The four command lines, as \<open>process_sample\<close> builds them.\<close>

definition samtools_view :: "int \<Rightarrow> path \<Rightarrow> path \<Rightarrow> path \<Rightarrow> string list" where
  "samtools_view threads reference_fasta bam cram =
     [''samtools'', ''view'', ''-b'', ''-@'', str_int threads,
      ''-T'', path_str reference_fasta, ''-o'', path_str bam, path_str cram]"

definition bam2seqz :: "path \<Rightarrow> path \<Rightarrow> path \<Rightarrow> path \<Rightarrow> path \<Rightarrow> string list" where
  "bam2seqz normal_bam tumor_bam reference_fasta gc_wiggle out_seqz =
     [''sequenza-utils'', ''bam2seqz'', ''-n'', path_str normal_bam, ''-t'', path_str tumor_bam,
      ''--fasta'', path_str reference_fasta, ''-gc'', path_str gc_wiggle, ''-o'', path_str out_seqz]"

definition seqz_binning :: "path \<Rightarrow> int \<Rightarrow> path \<Rightarrow> string list" where
  "seqz_binning out_seqz bin_width binned_seqz =
     [''sequenza-utils'', ''seqz_binning'', ''--seqz'', path_str out_seqz,
      ''-w'', str_int bin_width, ''-o'', path_str binned_seqz]"

text \<open>
  \<open>process_sample\<close>. An argument \<open>None\<close> for \<open>bin_width\<close> or \<open>threads\<close> is an argument
  left out, which takes the default 50 or 4. The result \<open>Inr\<close> is the returned
  boolean; \<open>Inl\<close> is an exception that leaves the function, which only the deletion
  in the handler can raise. Of the printed lines the trace keeps those of \<open>run_cmd\<close>.
\<close>

definition process_sample ::
  "exec \<Rightarrow> path \<Rightarrow> path \<Rightarrow> path \<Rightarrow> int option \<Rightarrow> int option \<Rightarrow> world
     \<Rightarrow> (py_error + bool) \<times> world" where
  "process_sample ex sample_folder reference_fasta gc_wiggle bin_width_arg threads_arg w =
     (let bin_width = (case bin_width_arg of None \<Rightarrow> 50 | Some b \<Rightarrow> b);
          threads = (case threads_arg of None \<Rightarrow> 4 | Some t \<Rightarrow> t);
          tumor_cram_dir = sample_folder @ [''preprocessing'', ''recalibrated'', ''Tumour''];
          normal_cram_dir = sample_folder @ [''preprocessing'', ''recalibrated'', ''Normal'']
      in case first_cram (files w) tumor_cram_dir of
           None \<Rightarrow> (Inr False, w)
         | Some tumor_cram_file \<Rightarrow>
        (case first_cram (files w) normal_cram_dir of
           None \<Rightarrow> (Inr False, w)
         | Some normal_cram_file \<Rightarrow>
        (let tumor_bam = with_suffix tumor_cram_file ''.bam'';
             normal_bam = with_suffix normal_cram_file ''.bam'';
             sequenza_dir = sample_folder @ [''sequenza_files''];
             out_seqz = sequenza_dir @ [''out.seqz.gz''];
             binned_seqz = sequenza_dir @ [''binned.out.seqz.gz''];
             body =
               and_then (mkdir_step sequenza_dir w) (\<lambda>w.
               and_then (run_cmd ex (samtools_view threads reference_fasta normal_bam normal_cram_file)
                           ''Converting Normal CRAM to BAM'' w) (\<lambda>w.
               and_then (run_cmd ex (samtools_view threads reference_fasta tumor_bam tumor_cram_file)
                           ''Converting Tumor CRAM to BAM'' w) (\<lambda>w.
               and_then (run_cmd ex (bam2seqz normal_bam tumor_bam reference_fasta gc_wiggle out_seqz)
                           ''Running bam2seqz'' w) (\<lambda>w.
               and_then (run_cmd ex (seqz_binning out_seqz bin_width binned_seqz)
                           ''Running seqz_binning'' w) (\<lambda>w.
               unlink_existing [tumor_bam, normal_bam] w)))))
         in case body of
              (Inr u, w') \<Rightarrow> (Inr True, w')
            | (Inl e, w') \<Rightarrow>
                (case unlink_existing [tumor_bam, normal_bam] w' of
                   (Inl e', w'') \<Rightarrow> (Inl e', w'')
                 | (Inr u, w'') \<Rightarrow> (Inr False, w'')))))"


section \<open>Workspace Preparer and batch driver (run\_all\_sequenza.py)\<close>

text \<open>
  The configuration the script resolves from the environment when it starts; the
  script path and the bin width are constants of the script.
\<close>

record config =
  SEQUENZA_OUTPUT :: path
  REFERENCE_FASTA :: path
  GC_WIGGLE :: path
  THREADS :: int



text \<open>
  \<open>p / s\<close> for a string without a separator: an empty string or a dot adds nothing,
  and any other string is one more component.
\<close>

definition path_join :: "path \<Rightarrow> string \<Rightarrow> path" where
  "path_join p s = (if s = [] \<or> s = ''.'' then p else p @ [s])"

definition mkdir_parents_step :: "path \<Rightarrow> world \<Rightarrow> (py_error + unit) \<times> world" where
  "mkdir_parents_step d w =
     (case mkdir_parents (files w) d of
        Inl e \<Rightarrow> (Inl e, w)
      | Inr f' \<Rightarrow> (Inr (), w\<lparr>files := f'\<rparr>))"

text \<open>
  One of the two linking loops, over the names that \<open>glob("*.*")\<close> has listed: a name
  with the suffix \<open>.cram\<close> or \<open>.crai\<close> is linked into the working directory unless
  \<open>target.exists()\<close> says the target is there.
\<close>

fun link_files :: "path \<Rightarrow> path \<Rightarrow> string list \<Rightarrow> world \<Rightarrow> (py_error + unit) \<times> world" where
  "link_files src dst [] w = (Inr (), w)"
| "link_files src dst (n # ns) w =
     (if suffix_of n \<in> {''.cram'', ''.crai''} then
        (let target = dst @ [n] in
         if \<not> path_exists (files w) target then
           (case resolve (files w) (src @ [n]) of
              Inl e \<Rightarrow> (Inl e, w)
            | Inr dest \<Rightarrow>
                (case symlink_to (files w) target dest of
                   Inl e \<Rightarrow> (Inl e, w)
                 | Inr f' \<Rightarrow>
                     link_files src dst ns
                       (w\<lparr>files := f', events := events w @ [Linked target dest]\<rparr>)))
         else link_files src dst ns w)
      else link_files src dst ns w)"

definition link_dir :: "path \<Rightarrow> path \<Rightarrow> world \<Rightarrow> (py_error + unit) \<times> world" where
  "link_dir src dst w = link_files src dst (glob_names (files w) src matches_dotted) w"

text \<open>
  The first phase of \<open>run_sequenza\<close>, the Workspace Preparer: the two working
  directories are made and the alignment files of the two input directories are
  linked into them. No exception is caught here. (The parameters \<open>tumor_path\<close> and
  \<open>normal_path\<close> carry a prime, the plain names being the fields of a pair.)
\<close>

definition prepare_workspace ::
  "config \<Rightarrow> string \<Rightarrow> path \<Rightarrow> path \<Rightarrow> world \<Rightarrow> (py_error + unit) \<times> world" where
  "prepare_workspace cfg pid tumor_path' normal_path' w =
     (let work_dir = path_join (SEQUENZA_OUTPUT cfg) pid;
          tumor_dir = work_dir @ [''preprocessing'', ''recalibrated'', ''Tumour''];
          normal_dir = work_dir @ [''preprocessing'', ''recalibrated'', ''Normal'']
      in and_then (mkdir_parents_step tumor_dir w) (\<lambda>w.
         and_then (mkdir_parents_step normal_dir w) (\<lambda>w.
         and_then (link_dir tumor_path' tumor_dir w) (\<lambda>w.
         link_dir normal_path' normal_dir w))))"





subsection \<open>Vocabulary for the batch\<close>




section \<open>Properties of the Sample Locator\<close>

subsection \<open>Substrings and replacement\<close>

lemma contains_str_sublist: "contains_str sub s = sublist sub s"
  by (induction s) (auto simp: sublist_Cons_right)

lemma prefix_append_self:
  assumes "prefix old (s @ old)" "hd old \<notin> set (tl old)"
  shows "s = [] \<or> prefix old s"
proof (cases "prefix old s")
  case False
  with assms(1) obtain us where us: "old = s @ us" "prefix us old"
    by (auto simp: prefix_append)
  show ?thesis
  proof (cases s)
    case (Cons a s')
    show ?thesis
    proof (cases us)
      case Nil with us False show ?thesis by simp
    next
      case (Cons u us')
      with us \<open>s = a # s'\<close> have "u = a" by (auto simp: prefix_def)
      with us Cons \<open>s = a # s'\<close> assms(2) show ?thesis by auto
    qed
  qed simp
qed simp

lemma replace_str_absent:
  "old \<noteq> [] \<Longrightarrow> \<not> sublist old s \<Longrightarrow> replace_str old new s = s"
  by (induction s) (auto simp: sublist_Cons_right)

lemma replace_str_self: "old \<noteq> [] \<Longrightarrow> replace_str old new old = new"
  by (cases old) auto

lemma replace_str_append_old:
  "old \<noteq> [] \<Longrightarrow> hd old \<notin> set (tl old) \<Longrightarrow> \<not> sublist old s
     \<Longrightarrow> replace_str old new (s @ old) = s @ new"
proof (induction s)
  case Nil
  then show ?case by (simp add: replace_str_self)
next
  case (Cons c cs)
  from Cons.prems have ns: "\<not> sublist old cs" and np: "\<not> prefix old (c # cs)"
    by (auto simp: sublist_Cons_right)
  have "\<not> prefix old ((c # cs) @ old)"
    using prefix_append_self [of old "c # cs"] Cons.prems(2) np by auto
  with Cons ns show ?case by simp
qed

lemma sublist_append_sep:
  assumes "\<not> sublist xs ys" "\<not> sublist xs zs" "zs \<noteq> []" "hd zs \<notin> set xs"
  shows "\<not> sublist xs (ys @ zs)"
proof
  assume "sublist xs (ys @ zs)"
  with assms(1,2) obtain xs1 xs2 where x: "xs = xs1 @ xs2" "suffix xs1 ys" "prefix xs2 zs"
    by (auto simp: sublist_append)
  show False
  proof (cases xs2)
    case Nil
    with x assms(1) show False by auto
  next
    case (Cons a as)
    with x(3) assms(3) have "a = hd zs" by (cases zs) auto
    with x(1) Cons assms(4) show False by auto
  qed
qed

subsection \<open>The scan and the matching loop\<close>

lemma scan_folder_normal:
  "classed_normal e \<Longrightarrow> scan_folder b e st =
     st\<lparr>normals := AList.update (normal_pid (name e)) (b @ [name e]) (normals st),
        printed := printed st @ [Found_Normal (normal_pid (name e)) (b @ [name e])]\<rparr>"
  by (simp add: scan_folder_def classed_normal_def normal_pid_def Let_def)

lemma scan_folder_tumour:
  "classed_tumour e \<Longrightarrow> scan_folder b e st =
     st\<lparr>tumours := AList.update (tumour_pid (name e)) (b @ [name e]) (tumours st),
        printed := printed st @ [Found_Tumor (tumour_pid (name e)) (b @ [name e])]\<rparr>"
  by (simp add: scan_folder_def classed_tumour_def tumour_pid_def Let_def)

lemma scan_folder_other:
  "\<not> classed_normal e \<Longrightarrow> \<not> classed_tumour e \<Longrightarrow> scan_folder b e st = st"
  by (auto simp add: scan_folder_def classed_tumour_def classed_normal_def Let_def)

lemma not_both: "classed_normal e \<Longrightarrow> \<not> classed_tumour e"
  by (simp add: classed_normal_def classed_tumour_def)

lemma scan_folder_cases:
  obtains (N) "classed_normal e" "\<not> classed_tumour e"
  | (T) "classed_tumour e" "\<not> classed_normal e"
  | (O) "\<not> classed_normal e" "\<not> classed_tumour e"
  using not_both by blast

lemma normals_keys:
  "fst ` set (normals (scan_folders b es st)) =
     fst ` set (normals st) \<union> {normal_pid (name e) | e. e \<in> set es \<and> classed_normal e}"
proof (induction es arbitrary: st)
  case Nil show ?case by simp
next
  case (Cons e es)
  show ?case
    by (cases e rule: scan_folder_cases)
       (auto simp: Cons scan_folder_normal scan_folder_tumour scan_folder_other dom_update)
qed

lemma tumours_keys:
  "fst ` set (tumours (scan_folders b es st)) =
     fst ` set (tumours st) \<union> {tumour_pid (name e) | e. e \<in> set es \<and> classed_tumour e}"
proof (induction es arbitrary: st)
  case Nil show ?case by simp
next
  case (Cons e es)
  show ?case
    by (cases e rule: scan_folder_cases)
       (auto simp: Cons scan_folder_normal scan_folder_tumour scan_folder_other dom_update)
qed

lemma normals_distinct:
  "distinct (map fst (normals st)) \<Longrightarrow> distinct (map fst (normals (scan_folders b es st)))"
proof (induction es arbitrary: st)
  case Nil then show ?case by simp
next
  case (Cons e es)
  show ?case
    by (cases e rule: scan_folder_cases)
       (auto simp: Cons scan_folder_normal scan_folder_tumour scan_folder_other distinct_update)
qed

lemma tumours_distinct:
  "distinct (map fst (tumours st)) \<Longrightarrow> distinct (map fst (tumours (scan_folders b es st)))"
proof (induction es arbitrary: st)
  case Nil then show ?case by simp
next
  case (Cons e es)
  show ?case
    by (cases e rule: scan_folder_cases)
       (auto simp: Cons scan_folder_normal scan_folder_tumour scan_folder_other distinct_update)
qed

lemma normals_source:
  "map_of (normals (scan_folders b es st)) k = Some f \<Longrightarrow>
     map_of (normals st) k = Some f
     \<or> (\<exists>e\<in>set es. classed_normal e \<and> normal_pid (name e) = k \<and> f = b @ [name e])"
proof (induction es arbitrary: st)
  case Nil then show ?case by simp
next
  case (Cons e es)
  from Cons.prems Cons.IH [of "scan_folder b e st"]
  have "map_of (normals (scan_folder b e st)) k = Some f
     \<or> (\<exists>e\<in>set es. classed_normal e \<and> normal_pid (name e) = k \<and> f = b @ [name e])"
    by simp
  then show ?case
    by (cases e rule: scan_folder_cases)
       (auto simp: scan_folder_normal scan_folder_tumour scan_folder_other update_conv'
             split: if_splits)
qed

lemma tumours_source:
  "map_of (tumours (scan_folders b es st)) k = Some f \<Longrightarrow>
     map_of (tumours st) k = Some f
     \<or> (\<exists>e\<in>set es. classed_tumour e \<and> tumour_pid (name e) = k \<and> f = b @ [name e])"
proof (induction es arbitrary: st)
  case Nil then show ?case by simp
next
  case (Cons e es)
  from Cons.prems Cons.IH [of "scan_folder b e st"]
  have "map_of (tumours (scan_folder b e st)) k = Some f
     \<or> (\<exists>e\<in>set es. classed_tumour e \<and> tumour_pid (name e) = k \<and> f = b @ [name e])"
    by simp
  then show ?case
    by (cases e rule: scan_folder_cases)
       (auto simp: scan_folder_normal scan_folder_tumour scan_folder_other update_conv'
             split: if_splits)
qed

lemma printed_scan:
  "printed (scan_folders b es st) = printed st @ concat (map (found_line b) es)"
proof (induction es arbitrary: st)
  case Nil show ?case by simp
next
  case (Cons e es)
  show ?case
    by (cases e rule: scan_folder_cases)
       (auto simp: Cons scan_folder_normal scan_folder_tumour scan_folder_other found_line_def)
qed

lemma match_pairs_eq:
  "match_pairs nrm items (pairs, out) =
     (pairs @ List.map_filter (pair_of nrm) items, out @ map (match_line nrm) items)"
proof (induction items arbitrary: pairs out)
  case Nil show ?case by (simp add: List.map_filter_simps)
next
  case (Cons it items)
  obtain pid t where it: "it = (pid, t)" by (cases it)
  show ?case
    by (cases "map_of nrm pid")
       (simp_all add: it Cons List.map_filter_simps pair_of_def match_line_def)
qed

lemma run_eq:
  "find_sample_pairs_run b es =
     (List.map_filter (pair_of (normals (scan_result b es))) (tumours (scan_result b es)),
      printed (scan_result b es) @ map (match_line (normals (scan_result b es))) (tumours (scan_result b es)))"
  by (simp add: find_sample_pairs_run_def Let_def match_pairs_eq)

lemma pairs_eq:
  "find_sample_pairs b es =
     List.map_filter (pair_of (normals (scan_result b es))) (tumours (scan_result b es))"
  by (simp add: find_sample_pairs_def run_eq)

lemma log_eq:
  "find_sample_pairs_log b es =
     (Scanning b # concat (map (found_line b) es))
       @ map (match_line (normals (scan_result b es))) (tumours (scan_result b es))"
  by (simp add: find_sample_pairs_log_def run_eq scan_result_def printed_scan)

lemma result_tumours_distinct: "distinct (map fst (tumours (scan_result b es)))"
  by (simp add: scan_result_def tumours_distinct)

lemma result_normals_source:
  "map_of (normals (scan_result b es)) k = Some f \<Longrightarrow>
     \<exists>e\<in>set es. classed_normal e \<and> normal_pid (name e) = k \<and> f = b @ [name e]"
  using normals_source [of b es "\<lparr>normals = [], tumours = [], printed = [Scanning b]\<rparr>" k f]
  by (simp add: scan_result_def)

lemma result_tumours_source:
  "map_of (tumours (scan_result b es)) k = Some f \<Longrightarrow>
     \<exists>e\<in>set es. classed_tumour e \<and> tumour_pid (name e) = k \<and> f = b @ [name e]"
  using tumours_source [of b es "\<lparr>normals = [], tumours = [], printed = [Scanning b]\<rparr>" k f]
  by (simp add: scan_result_def)

lemma result_normals_keys:
  "fst ` set (normals (scan_result b es)) = {normal_pid (name e) | e. e \<in> set es \<and> classed_normal e}"
  by (simp add: scan_result_def normals_keys)

lemma result_tumours_keys:
  "fst ` set (tumours (scan_result b es)) = {tumour_pid (name e) | e. e \<in> set es \<and> classed_tumour e}"
  by (simp add: scan_result_def tumours_keys)

lemma map_filter_pair_ids:
  "map patient_id (List.map_filter (pair_of nrm) items)
     = filter (\<lambda>k. map_of nrm k \<noteq> None) (map fst items)"
  by (induction items) (auto simp: List.map_filter_simps pair_of_def patient_id_def split: option.splits)

lemma in_map_filter_pair:
  "p \<in> set (List.map_filter (pair_of nrm) items) \<longleftrightarrow>
     ((patient_id p, tumor_path p) \<in> set items \<and> map_of nrm (patient_id p) = Some (normal_path p))"
  by (induction items)
     (auto simp: List.map_filter_simps pair_of_def patient_id_def tumor_path_def normal_path_def
           split: option.splits)

lemma found_line_normal_only:
  "classed_normal e \<Longrightarrow> Found_Tumor pid (b @ [name e]) \<notin> set (concat (map (found_line b) es))"
  by (auto simp: found_line_def classed_normal_def classed_tumour_def split: if_splits)

lemma match_line_not_found:
  "Found_Tumor pid f \<notin> set (map (match_line nrm) items)"
  "Found_Normal pid f \<notin> set (map (match_line nrm) items)"
  by (auto simp: match_line_def split: option.splits)

lemma warning_iff:
  "Warning_No_Normal k \<in> set (find_sample_pairs_log b es) \<longleftrightarrow>
     k \<in> fst ` set (tumours (scan_result b es)) \<and> k \<notin> fst ` set (normals (scan_result b es))"
proof -
  have a: "Warning_No_Normal k \<notin> set (concat (map (found_line b) es))"
    by (auto simp: found_line_def split: if_splits)
  have b: "Warning_No_Normal k \<in> match_line nrm ` set items
      \<longleftrightarrow> k \<in> fst ` set items \<and> map_of nrm k = None" for nrm items
    by (induction items) (auto simp: match_line_def split: option.splits)
  show ?thesis using a by (simp add: log_eq b map_of_eq_None_iff)
qed

lemma scan_folders_filter:
  "scan_folders b (filter (\<lambda>e. classed_normal e \<or> classed_tumour e) es) st = scan_folders b es st"
  by (induction es arbitrary: st) (auto simp: scan_folder_other)

subsection \<open>Names built from an id\<close>

lemma sublist_tail_of: "sublist (c # xs) s \<Longrightarrow> sublist xs s"
  by (auto simp: sublist_def) (metis append_Cons append_Nil append_assoc)

lemma normal_name:
  assumes "\<not> contains_str ''Normal'' i"
  shows "contains_str ''Normal'' (i @ ''_Normal'')"
    and "normal_pid (i @ ''_Normal'') = i"
proof -
  have "i @ ''_Normal'' = (i @ ''_'') @ ''Normal'' @ []" by simp
  then show "contains_str ''Normal'' (i @ ''_Normal'')"
    unfolding contains_str_sublist sublist_def by blast
  have "\<not> sublist ''_Normal'' i"
    using assms sublist_tail_of [of "CHR ''_''" "''Normal''" i]
    unfolding contains_str_sublist by blast
  then show "normal_pid (i @ ''_Normal'') = i"
    using replace_str_append_old [of "''_Normal''" i "''''"] by (simp add: normal_pid_def)
qed

lemma tumour_name:
  assumes "\<not> contains_str ''Normal'' i" "\<not> contains_str ''_Tumour'' i" "\<not> contains_str ''_Tumor'' i"
  shows "\<not> contains_str ''Normal'' (i @ ''_Tumour'')"
    and "contains_str ''Tumour'' (i @ ''_Tumour'')"
    and "tumour_pid (i @ ''_Tumour'') = i"
proof -
  have "\<not> sublist ''Normal'' ''_Tumour''" by code_simp
  then show "\<not> contains_str ''Normal'' (i @ ''_Tumour'')"
    using assms(1) sublist_append_sep [of "''Normal''" i "''_Tumour''"]
    by (simp add: contains_str_sublist)
  have "i @ ''_Tumour'' = (i @ ''_'') @ ''Tumour'' @ []" by simp
  then show "contains_str ''Tumour'' (i @ ''_Tumour'')"
    unfolding contains_str_sublist sublist_def by blast
  have "replace_str ''_Tumour'' '''' (i @ ''_Tumour'') = i"
    using assms(2) replace_str_append_old [of "''_Tumour''" i "''''"]
    by (simp add: contains_str_sublist)
  moreover have "replace_str ''_Tumor'' '''' i = i"
    using assms(3) replace_str_absent [of "''_Tumor''" i "''''"]
    by (simp add: contains_str_sublist)
  ultimately show "tumour_pid (i @ ''_Tumour'') = i" by (simp add: tumour_pid_def)
qed

lemma filter_pid_unique:
  "distinct (map fst items) \<Longrightarrow> map_of items k = Some t \<Longrightarrow> map_of nrm k = Some n \<Longrightarrow>
     filter (\<lambda>p. patient_id p = k) (List.map_filter (pair_of nrm) items) = [(k, t, n)]"
proof (induction items)
  case Nil then show ?case by simp
next
  case (Cons it items)
  obtain k' t' where it: "it = (k', t')" by (cases it)
  show ?case
  proof (cases "k' = k")
    case True
    with Cons.prems it have "k \<notin> fst ` set items" "t' = t" by auto
    then have "filter (\<lambda>p. patient_id p = k) (List.map_filter (pair_of nrm) items) = []"
      by (auto simp: filter_empty_conv in_map_filter_pair intro: rev_image_eqI)
    moreover have "pair_of nrm it = Some (k, t, n)" "patient_id (k, t, n) = k"
      using True it Cons.prems(3) \<open>t' = t\<close> by (simp_all add: pair_of_def patient_id_def)
    ultimately show ?thesis
      by (simp add: List.map_filter_simps)
  next
    case False
    with Cons it show ?thesis
      by (auto simp: List.map_filter_simps pair_of_def patient_id_def split: option.splits)
  qed
qed

subsection \<open>The claims about \<open>find_sample_pairs\<close>\<close>

text \<open>
  Claim C1, as amended. Let the root directory hold the directories \<open>id_Normal\<close> and
  \<open>id_Tumour\<close>, let no other entry derive the patient id \<open>id\<close>, and let \<open>id\<close>
  contain none of the strings \<open>Normal\<close>, \<open>_Tumour\<close>, \<open>_Tumor\<close>. Then
  \<open>find_sample_pairs\<close> returns exactly one pair with patient id \<open>id\<close>; its tumor path
  is the \<open>id_Tumour\<close> directory and its normal path is the \<open>id_Normal\<close> directory.
\<close>

theorem matched_pair_located:
  assumes N: "\<lparr>name = i @ ''_Normal'', is_dir = True\<rparr> \<in> set es"
    and T: "\<lparr>name = i @ ''_Tumour'', is_dir = True\<rparr> \<in> set es"
    and only: "\<forall>e\<in>set es. derived_pid e = Some i \<longrightarrow>
                 name e = i @ ''_Normal'' \<or> name e = i @ ''_Tumour''"
    and tags: "\<not> contains_str ''Normal'' i" "\<not> contains_str ''_Tumour'' i"
              "\<not> contains_str ''_Tumor'' i"
  shows "filter (\<lambda>p. patient_id p = i) (find_sample_pairs b es)
           = [(i, b @ [i @ ''_Tumour''], b @ [i @ ''_Normal''])]"
proof -
  let ?N = "\<lparr>name = i @ ''_Normal'', is_dir = True\<rparr>"
  let ?T = "\<lparr>name = i @ ''_Tumour'', is_dir = True\<rparr>"
  let ?st = "scan_result b es"
  have cn: "classed_normal ?N" and pn: "normal_pid (i @ ''_Normal'') = i"
    using normal_name [OF tags(1)] by (simp_all add: classed_normal_def)
  have ct: "classed_tumour ?T" and pt: "tumour_pid (i @ ''_Tumour'') = i"
    using tumour_name [OF tags] by (simp_all add: classed_tumour_def)
  have "i \<in> fst ` set (normals ?st)"
    using N cn pn by (auto simp: result_normals_keys intro!: exI [of _ "?N"])
  then obtain n where n: "map_of (normals ?st) i = Some n"
    by (metis map_of_eq_None_iff not_Some_eq)
  from result_normals_source [OF n] obtain e where
    e: "e \<in> set es" "classed_normal e" "normal_pid (name e) = i" "n = b @ [name e]" by auto
  then have "derived_pid e = Some i" by (simp add: derived_pid_def)
  with only e(1) have "name e = i @ ''_Normal'' \<or> name e = i @ ''_Tumour''" by blast
  moreover have "name e \<noteq> i @ ''_Tumour''"
    using e(2) tumour_name(1) [OF tags] by (auto simp: classed_normal_def)
  ultimately have n_eq: "n = b @ [i @ ''_Normal'']" using e(4) by simp
  have "i \<in> fst ` set (tumours ?st)"
    using T ct pt by (auto simp: result_tumours_keys intro!: exI [of _ "?T"])
  then obtain t where t: "map_of (tumours ?st) i = Some t"
    by (metis map_of_eq_None_iff not_Some_eq)
  from result_tumours_source [OF t] obtain e' where
    e': "e' \<in> set es" "classed_tumour e'" "tumour_pid (name e') = i" "t = b @ [name e']" by auto
  then have "derived_pid e' = Some i" by (simp add: derived_pid_def classed_tumour_def classed_normal_def)
  with only e'(1) have "name e' = i @ ''_Normal'' \<or> name e' = i @ ''_Tumour''" by blast
  moreover have "name e' \<noteq> i @ ''_Normal''"
    using e'(2) normal_name(1) [OF tags(1)] by (auto simp: classed_tumour_def)
  ultimately have t_eq: "t = b @ [i @ ''_Tumour'']" using e'(4) by simp
  show ?thesis
    using filter_pid_unique [OF result_tumours_distinct t n] by (simp add: pairs_eq n_eq t_eq)
qed

theorem matched_pair_located_witness:
  "filter (\<lambda>p. patient_id p = ''P1'')
     (find_sample_pairs [''data'']
        [\<lparr>name = ''P2_Tumor'', is_dir = True\<rparr>, \<lparr>name = ''P1_Normal'', is_dir = True\<rparr>,
         \<lparr>name = ''P1_Tumour'', is_dir = True\<rparr>])
   = [(''P1'', [''data'', ''P1_Tumour''], [''data'', ''P1_Normal''])]"
proof -
  let ?es = "[\<lparr>name = ''P2_Tumor'', is_dir = True\<rparr>, \<lparr>name = ''P1_Normal'', is_dir = True\<rparr>,
         \<lparr>name = ''P1_Tumour'', is_dir = True\<rparr>]"
  have h: "\<forall>e\<in>set ?es. derived_pid e = Some ''P1'' \<longrightarrow>
                 name e = ''P1'' @ ''_Normal'' \<or> name e = ''P1'' @ ''_Tumour''"
    by (simp add: derived_pid_def classed_normal_def classed_tumour_def tumour_pid_def)
  have t: "\<not> contains_str ''Normal'' ''P1''" "\<not> contains_str ''_Tumour'' ''P1''"
              "\<not> contains_str ''_Tumor'' ''P1''"
    by simp_all
  show ?thesis
    using matched_pair_located [of "''P1''" ?es "[''data'']", OF _ _ h t] by simp
qed

text \<open>
  Claim C1 as stated fails when the id contains a tag: for the id \<open>Normal\<close> both
  directories contain \<open>Normal\<close>, both are classified as normal samples, and no pair
  is returned.
\<close>

theorem matched_pair_counterexample:
  "find_sample_pairs [''data'']
     [\<lparr>name = ''Normal'' @ ''_Normal'', is_dir = True\<rparr>,
      \<lparr>name = ''Normal'' @ ''_Tumour'', is_dir = True\<rparr>] = []"
  by code_simp

text \<open>
  Claim C8, as amended. Let the root directory hold a directory \<open>X_Normal\<close>, and let no
  directory that the scan classifies as a tumor sample derive the patient id \<open>X\<close>. Then
  \<open>find_sample_pairs\<close> returns no pair for \<open>X\<close> and prints no warning for \<open>X\<close>. A
  tumor directory whose patient id no normal directory derives gets a warning. Entries
  that match neither tag, and entries that are not directories, are ignored: without
  them the returned pairs and the printed lines are the same.
\<close>

theorem normal_only_silent:
  assumes "\<lparr>name = X @ ''_Normal'', is_dir = True\<rparr> \<in> set es"
    and "\<forall>e\<in>set es. classed_tumour e \<longrightarrow> tumour_pid (name e) \<noteq> X"
  shows "(\<forall>p\<in>set (find_sample_pairs b es). patient_id p \<noteq> X)
       \<and> Warning_No_Normal X \<notin> set (find_sample_pairs_log b es)
       \<and> (\<forall>t\<in>set es. classed_tumour t
             \<and> (\<forall>n\<in>set es. classed_normal n \<longrightarrow> normal_pid (name n) \<noteq> tumour_pid (name t))
             \<longrightarrow> Warning_No_Normal (tumour_pid (name t)) \<in> set (find_sample_pairs_log b es))
       \<and> find_sample_pairs_run b (filter (\<lambda>e. classed_normal e \<or> classed_tumour e) es)
           = find_sample_pairs_run b es"
proof -
  have nk: "X \<notin> fst ` set (tumours (scan_result b es))"
    unfolding result_tumours_keys using assms(2) by auto
  have 1: "\<forall>p\<in>set (find_sample_pairs b es). patient_id p \<noteq> X"
  proof
    fix p assume "p \<in> set (find_sample_pairs b es)"
    then have "(patient_id p, tumor_path p) \<in> set (tumours (scan_result b es))"
      by (simp add: pairs_eq in_map_filter_pair)
    then have "patient_id p \<in> fst ` set (tumours (scan_result b es))" by force
    with nk show "patient_id p \<noteq> X" by auto
  qed
  have 2: "Warning_No_Normal X \<notin> set (find_sample_pairs_log b es)"
    using nk by (simp add: warning_iff)
  have 3: "\<forall>t\<in>set es. classed_tumour t
             \<and> (\<forall>n\<in>set es. classed_normal n \<longrightarrow> normal_pid (name n) \<noteq> tumour_pid (name t))
             \<longrightarrow> Warning_No_Normal (tumour_pid (name t)) \<in> set (find_sample_pairs_log b es)"
    by (auto simp: warning_iff result_tumours_keys result_normals_keys)
  have 4: "find_sample_pairs_run b (filter (\<lambda>e. classed_normal e \<or> classed_tumour e) es)
           = find_sample_pairs_run b es"
    by (simp add: find_sample_pairs_run_def scan_result_def scan_folders_filter)
  from 1 2 3 4 show ?thesis by blast
qed

theorem normal_only_silent_witness:
  "Warning_No_Normal ''P3'' \<notin> set (find_sample_pairs_log [''data'']
        [\<lparr>name = ''P3_Normal'', is_dir = True\<rparr>, \<lparr>name = ''P2_Tumor'', is_dir = True\<rparr>,
         \<lparr>name = ''notes'', is_dir = True\<rparr>])
   \<and> Warning_No_Normal ''P2'' \<in> set (find_sample_pairs_log [''data'']
        [\<lparr>name = ''P3_Normal'', is_dir = True\<rparr>, \<lparr>name = ''P2_Tumor'', is_dir = True\<rparr>,
         \<lparr>name = ''notes'', is_dir = True\<rparr>])"
proof -
  let ?es = "[\<lparr>name = ''P3_Normal'', is_dir = True\<rparr>, \<lparr>name = ''P2_Tumor'', is_dir = True\<rparr>,
         \<lparr>name = ''notes'', is_dir = True\<rparr>]"
  have a: "\<lparr>name = ''P3'' @ ''_Normal'', is_dir = True\<rparr> \<in> set ?es" by simp
  have b: "\<forall>e\<in>set ?es. classed_tumour e \<longrightarrow> tumour_pid (name e) \<noteq> ''P3''"
    by (simp add: classed_tumour_def tumour_pid_def)
  have c: "classed_tumour \<lparr>name = ''P2_Tumor'', is_dir = True\<rparr>
      \<and> (\<forall>n\<in>set ?es. classed_normal n \<longrightarrow> normal_pid (name n) \<noteq> tumour_pid (name \<lparr>name = ''P2_Tumor'', is_dir = True\<rparr>))"
    by (simp add: classed_tumour_def classed_normal_def tumour_pid_def normal_pid_def)
  have d: "tumour_pid ''P2_Tumor'' = ''P2''" by (simp add: tumour_pid_def)
  show ?thesis
    using normal_only_silent [OF a b, of "[''data'']"] c d by simp
qed

text \<open>
  Claim C8 as stated fails: with \<open>P1_Normal\<close> and \<open>P_Tumor1\<close> there is neither a
  \<open>P1_Tumour\<close> nor a \<open>P1_Tumor\<close> directory, yet removing \<open>_Tumor\<close> from
  \<open>P_Tumor1\<close> derives \<open>P1\<close> and a pair for \<open>P1\<close> is returned.
\<close>

theorem normal_only_counterexample:
  "find_sample_pairs [''data'']
     [\<lparr>name = ''P1'' @ ''_Normal'', is_dir = True\<rparr>, \<lparr>name = ''P_Tumor1'', is_dir = True\<rparr>]
   = [(''P1'', [''data'', ''P_Tumor1''], [''data'', ''P1_Normal''])]"
  by code_simp

text \<open>
  Claim C9: in the pairs returned by \<open>find_sample_pairs\<close> every patient id occurs at most
  once, and the tumor path and the normal path of every pair are entries of the root
  directory that are directories.
\<close>

theorem find_sample_pairs_invariant: 
  "distinct (map patient_id (find_sample_pairs b es)) \<and>
   (\<forall>p \<in> set (find_sample_pairs b es).
      (\<exists>t \<in> set es. is_dir t \<and> tumor_path p = b @ [name t]) \<and>
      (\<exists>n \<in> set es. is_dir n \<and> normal_path p = b @ [name n]))"
proof (intro conjI ballI)
  show "distinct (map patient_id (find_sample_pairs b es))"
    by (simp add: pairs_eq map_filter_pair_ids distinct_filter result_tumours_distinct)
next
  fix p assume "p \<in> set (find_sample_pairs b es)"
  then have t: "(patient_id p, tumor_path p) \<in> set (tumours (scan_result b es))"
    and n: "map_of (normals (scan_result b es)) (patient_id p) = Some (normal_path p)"
    by (simp_all add: pairs_eq in_map_filter_pair)
  from t have "map_of (tumours (scan_result b es)) (patient_id p) = Some (tumor_path p)"
    by (simp add: result_tumours_distinct)
  from result_tumours_source [OF this]
  show "\<exists>t \<in> set es. is_dir t \<and> tumor_path p = b @ [name t]"
    by (auto simp: classed_tumour_def)
  from result_normals_source [OF n]
  show "\<exists>n \<in> set es. is_dir n \<and> normal_path p = b @ [name n]"
    by (auto simp: classed_normal_def)
qed

theorem find_sample_pairs_invariant_witness:
  "distinct (map patient_id (find_sample_pairs [''data'']
        [\<lparr>name = ''P1_Normal'', is_dir = True\<rparr>, \<lparr>name = ''P1_Tumour'', is_dir = True\<rparr>]))
   \<and> find_sample_pairs [''data'']
        [\<lparr>name = ''P1_Normal'', is_dir = True\<rparr>, \<lparr>name = ''P1_Tumour'', is_dir = True\<rparr>] \<noteq> []"
proof -
  have "find_sample_pairs [''data'']
        [\<lparr>name = ''P1_Normal'', is_dir = True\<rparr>, \<lparr>name = ''P1_Tumour'', is_dir = True\<rparr>] \<noteq> []"
    by code_simp
  then show ?thesis
    using find_sample_pairs_invariant [of "[''data'']" "[\<lparr>name = ''P1_Normal'', is_dir = True\<rparr>, \<lparr>name = ''P1_Tumour'', is_dir = True\<rparr>]"]
    by blast
qed

text \<open>
  Claim C10: a directory whose name contains \<open>Normal\<close> and also \<open>Tumour\<close> or
  \<open>Tumor\<close> is classified as a normal sample, under the id that removing \<open>_Normal\<close>
  derives, and never enters the tumor mapping: no tumor line is printed for it, it is
  no value of the tumor mapping and no tumor path of a returned pair.
\<close>

theorem normal_tag_precedence:
  assumes "e \<in> set es" and "is_dir e" and "contains_str ''Normal'' (name e)"
    and "contains_str ''Tumour'' (name e) \<or> contains_str ''Tumor'' (name e)"
  shows "Found_Normal (replace_str ''_Normal'' '''' (name e)) (b @ [name e])
           \<in> set (find_sample_pairs_log b es)
       \<and> replace_str ''_Normal'' '''' (name e) \<in> fst ` set (normals (scan_result b es))
       \<and> (\<forall>pid. Found_Tumor pid (b @ [name e]) \<notin> set (find_sample_pairs_log b es))
       \<and> b @ [name e] \<notin> snd ` set (tumours (scan_result b es))
       \<and> (\<forall>p\<in>set (find_sample_pairs b es). tumor_path p \<noteq> b @ [name e])"
proof -
  have cn: "classed_normal e" using assms by (simp add: classed_normal_def)
  have 1: "Found_Normal (replace_str ''_Normal'' '''' (name e)) (b @ [name e])
           \<in> set (find_sample_pairs_log b es)"
    using cn assms(1) by (auto simp: log_eq found_line_def normal_pid_def intro!: bexI [of _ e])
  have 2: "replace_str ''_Normal'' '''' (name e) \<in> fst ` set (normals (scan_result b es))"
    unfolding result_normals_keys using cn assms(1) by (auto simp: normal_pid_def)
  have 3: "\<forall>pid. Found_Tumor pid (b @ [name e]) \<notin> set (find_sample_pairs_log b es)"
    using found_line_normal_only [OF cn, of _ b es] match_line_not_found(1)
    by (simp add: log_eq)
  have 4: "b @ [name e] \<notin> snd ` set (tumours (scan_result b es))"
  proof
    assume "b @ [name e] \<in> snd ` set (tumours (scan_result b es))"
    then obtain k where "(k, b @ [name e]) \<in> set (tumours (scan_result b es))" by auto
    then have "map_of (tumours (scan_result b es)) k = Some (b @ [name e])"
      by (simp add: result_tumours_distinct)
    from result_tumours_source [OF this] obtain e' where
      "classed_tumour e'" "name e' = name e" by auto
    with assms(3) show False by (simp add: classed_tumour_def)
  qed
  have 5: "\<forall>p\<in>set (find_sample_pairs b es). tumor_path p \<noteq> b @ [name e]"
  proof
    fix p assume "p \<in> set (find_sample_pairs b es)"
    then have "(patient_id p, tumor_path p) \<in> set (tumours (scan_result b es))"
      by (simp add: pairs_eq in_map_filter_pair)
    then have "tumor_path p \<in> snd ` set (tumours (scan_result b es))" by force
    with 4 show "tumor_path p \<noteq> b @ [name e]" by metis
  qed
  from 1 2 3 4 5 show ?thesis by blast
qed

theorem normal_tag_precedence_witness:
  "[''data'', ''Tumour_vs_Normal''] \<notin> snd ` set (tumours (scan_result [''data'']
        [\<lparr>name = ''Tumour_vs_Normal'', is_dir = True\<rparr>]))
  \<and> Found_Normal ''Tumour_vs'' [''data'', ''Tumour_vs_Normal'']
           \<in> set (find_sample_pairs_log [''data''] [\<lparr>name = ''Tumour_vs_Normal'', is_dir = True\<rparr>])"
proof -
  let ?e = "\<lparr>name = ''Tumour_vs_Normal'', is_dir = True\<rparr>"
  have a: "?e \<in> set [?e]" "is_dir ?e" by simp_all
  have b: "contains_str ''Normal'' (name ?e)" by simp
  have c: "contains_str ''Tumour'' (name ?e) \<or> contains_str ''Tumor'' (name ?e)" by simp
  have d: "replace_str ''_Normal'' '''' ''Tumour_vs_Normal'' = ''Tumour_vs''" by simp
  show ?thesis using normal_tag_precedence [OF a b c, of "[''data'']"] d by simp
qed

section \<open>Properties of the TMB calculator\<close>

subsection \<open>\<open>get_coding_region_size\<close>\<close>









subsection \<open>\<open>count_tmb_mutations\<close>\<close>











section \<open>Properties of the Pipeline Driver\<close>

lemma follow_delete_None:
  "follow n f p = None \<Longrightarrow> follow n (AList.delete q f) p = None"
proof (induction n arbitrary: p)
  case 0
  show ?case by simp
next
  case (Suc n)
  show ?case
  proof (cases "p = [] \<or> q = p")
    case True
    with Suc.prems show ?thesis
      by (auto simp: lookup_def delete_conv' split: option.splits node.splits)
  next
    case False
    then have "lookup (AList.delete q f) p = lookup f p"
      by (auto simp: lookup_def delete_conv')
    with Suc show ?thesis
      by (auto split: option.splits node.splits)
  qed
qed

lemma stat_unfold:
  "stat f p =
     (case lookup f p of
        None \<Rightarrow> None
      | Some (Link t) \<Rightarrow> follow 40 f t
      | Some File \<Rightarrow> Some File
      | Some Dir \<Rightarrow> Some Dir)"
proof -
  have "(41::nat) = Suc 40" by simp
  then show ?thesis unfolding stat_def by (simp only: follow.simps)
qed

lemma stat_missing: "lookup f p = None \<Longrightarrow> stat f p = None"
  by (simp add: stat_unfold)

lemma unlink_keeps_missing:
  "unlink f q = Inr f' \<Longrightarrow> \<not> path_exists f p \<Longrightarrow> \<not> path_exists f' p"
  by (auto simp: unlink_def path_exists_def stat_def follow_delete_None
      split: option.splits node.splits)

lemma unlink_removes:
  "unlink f p = Inr f' \<Longrightarrow> p \<noteq> [] \<Longrightarrow> \<not> path_exists f' p"
  by (auto simp: unlink_def path_exists_def stat_missing lookup_def delete_conv'
      split: option.splits node.splits)

lemma unlink_existing_keeps_missing:
  "unlink_existing ps w = (r, w') \<Longrightarrow> \<not> path_exists (files w) p \<Longrightarrow> \<not> path_exists (files w') p"
proof (induction ps arbitrary: w)
  case Nil
  then show ?case by simp
next
  case (Cons q ps)
  show ?case
  proof (cases "path_exists (files w) q")
    case False
    with Cons show ?thesis by simp
  next
    case True
    show ?thesis
    proof (cases "unlink (files w) q")
      case (Inl e)
      with True Cons.prems show ?thesis by simp
    next
      case (Inr f')
      with True Cons.prems have
        "unlink_existing ps (w\<lparr>files := f', events := events w @ [Unlinked q]\<rparr>) = (r, w')"
        by simp
      moreover have "\<not> path_exists f' p"
        using unlink_keeps_missing [OF Inr Cons.prems(2)] .
      ultimately show ?thesis using Cons.IH by simp
    qed
  qed
qed

lemma unlink_existing_done:
  "unlink_existing ps w = (Inr u, w') \<Longrightarrow> \<forall>p\<in>set ps. p \<noteq> [] \<Longrightarrow>
     (\<forall>p\<in>set ps. \<not> path_exists (files w') p)
     \<and> (\<exists>dels. subseq dels ps \<and> events w' = events w @ map Unlinked dels)"
proof (induction ps arbitrary: w)
  case Nil
  then show ?case by auto
next
  case (Cons q ps)
  show ?case
  proof (cases "path_exists (files w) q")
    case False
    with Cons.prems have run: "unlink_existing ps w = (Inr u, w')" by simp
    from Cons.IH [OF run] Cons.prems(2) obtain dels where
      d: "\<forall>p\<in>set ps. \<not> path_exists (files w') p" "subseq dels ps"
         "events w' = events w @ map Unlinked dels" by auto
    have "\<not> path_exists (files w') q"
      using unlink_existing_keeps_missing [OF run False] .
    moreover have "subseq dels (q # ps)" using d(2) by (rule list_emb_Cons)
    ultimately show ?thesis using d(1,3) by auto
  next
    case True
    show ?thesis
    proof (cases "unlink (files w) q")
      case (Inl e)
      with True Cons.prems show ?thesis by simp
    next
      case (Inr f')
      let ?w = "w\<lparr>files := f', events := events w @ [Unlinked q]\<rparr>"
      from Inr True Cons.prems have run: "unlink_existing ps ?w = (Inr u, w')" by simp
      from Cons.IH [OF run] Cons.prems(2) obtain dels where
        d: "\<forall>p\<in>set ps. \<not> path_exists (files w') p" "subseq dels ps"
           "events w' = events ?w @ map Unlinked dels" by auto
      have "\<not> path_exists (files ?w) q"
        using unlink_removes [OF Inr] Cons.prems(2) by simp
      then have "\<not> path_exists (files w') q"
        using unlink_existing_keeps_missing [OF run] by blast
      moreover have "events w' = events w @ map Unlinked (q # dels)"
        using d(3) by simp
      moreover have "subseq (q # dels) (q # ps)" using d(2) by simp
      ultimately show ?thesis using d(1) by (metis set_ConsD)
    qed
  qed
qed

lemma delete_not_dir:
  "map_of f p \<noteq> Some Dir \<Longrightarrow> map_of (AList.delete q f) p \<noteq> Some Dir"
  by (simp add: delete_conv')

lemma exists_in_map: "path_exists f p \<Longrightarrow> p \<noteq> [] \<Longrightarrow> map_of f p \<noteq> None"
  by (auto simp: path_exists_def stat_unfold lookup_def split: option.splits)

lemma unlink_existing_returns:
  "\<forall>p\<in>set ps. p \<noteq> [] \<and> map_of (files w) p \<noteq> Some Dir \<Longrightarrow>
     \<exists>w'. unlink_existing ps w = (Inr (), w')"
proof (induction ps arbitrary: w)
  case Nil
  show ?case by simp
next
  case (Cons q ps)
  show ?case
  proof (cases "path_exists (files w) q")
    case False
    with Cons show ?thesis by simp
  next
    case True
    with Cons.prems have "map_of (files w) q \<noteq> None" "map_of (files w) q \<noteq> Some Dir"
      by (simp_all add: exists_in_map)
    then have u: "unlink (files w) q = Inr (AList.delete q (files w))"
      by (auto simp: unlink_def split: option.splits node.splits)
    let ?w = "w\<lparr>files := AList.delete q (files w), events := events w @ [Unlinked q]\<rparr>"
    have "\<forall>p\<in>set ps. p \<noteq> [] \<and> map_of (files ?w) p \<noteq> Some Dir"
      using Cons.prems by (simp add: delete_not_dir)
    from Cons.IH [OF this] True u show ?thesis by simp
  qed
qed

lemma and_then_Inr:
  "and_then r k = (Inr u, w') \<longleftrightarrow> (\<exists>w1. r = (Inr (), w1) \<and> k w1 = (Inr u, w'))"
  by (auto simp: and_then_def split: prod.splits sum.splits)

lemma run_cmd_Inr:
  "run_cmd ex cmd d w = (Inr u, w1) \<longleftrightarrow>
     (\<exists>f'. ex cmd (files w) = (Exited 0, f')
        \<and> w1 = w\<lparr>events := events w @ [Run_Cmd d cmd], files := f'\<rparr>)"
  by (auto simp: run_cmd_def Let_def split: prod.splits proc_result.splits)

lemma mkdir_step_Inr:
  "mkdir_step d w = (Inr u, w1) \<longleftrightarrow> (\<exists>f'. mkdir_exist_ok (files w) d = Inr f' \<and> w1 = w\<lparr>files := f'\<rparr>)"
  by (auto simp: mkdir_step_def split: sum.splits)

lemma with_suffix_not_root: "with_suffix p sfx \<noteq> []"
  by (simp add: with_suffix_def)


text \<open>
  Claim C4: when the two conversions succeed and \<open>bam2seqz\<close> exits with a status other
  than 0, \<open>process_sample\<close> returns \<open>False\<close>, neither intermediate BAM file exists
  afterwards, and no binning command is started: the run starts exactly the three
  commands and then deletes BAM files. (No directory stands at a BAM path, which
  \<open>unlink\<close> could not delete.)
\<close>

theorem bam2seqz_failure_cleanup:
  assumes tc: "first_cram (files w) (sample_folder @ [''preprocessing'', ''recalibrated'', ''Tumour''])
                 = Some tumor_cram"
    and nc: "first_cram (files w) (sample_folder @ [''preprocessing'', ''recalibrated'', ''Normal''])
                 = Some normal_cram"
    and tb: "tumor_bam = with_suffix tumor_cram ''.bam''"
    and nb: "normal_bam = with_suffix normal_cram ''.bam''"
    and th: "threads = (case threads_arg of None \<Rightarrow> 4 | Some t \<Rightarrow> t)"
    and mk: "mkdir_exist_ok (files w) (sample_folder @ [''sequenza_files'']) = Inr f0"
    and s1: "ex (samtools_view threads reference_fasta normal_bam normal_cram) f0 = (Exited 0, f1)"
    and s2: "ex (samtools_view threads reference_fasta tumor_bam tumor_cram) f1 = (Exited 0, f2)"
    and s3: "ex (bam2seqz normal_bam tumor_bam reference_fasta gc_wiggle
                   (sample_folder @ [''sequenza_files'', ''out.seqz.gz''])) f2 = (Exited c, f3)"
    and c: "c \<noteq> 0"
    and nd: "map_of f3 tumor_bam \<noteq> Some Dir" "map_of f3 normal_bam \<noteq> Some Dir"
  shows "\<exists>w' dels.
      process_sample ex sample_folder reference_fasta gc_wiggle bin_width_arg threads_arg w
        = (Inr False, w')
    \<and> \<not> path_exists (files w') tumor_bam \<and> \<not> path_exists (files w') normal_bam
    \<and> events w' = events w @
         [Run_Cmd ''Converting Normal CRAM to BAM''
            (samtools_view threads reference_fasta normal_bam normal_cram),
          Run_Cmd ''Converting Tumor CRAM to BAM''
            (samtools_view threads reference_fasta tumor_bam tumor_cram),
          Run_Cmd ''Running bam2seqz''
            (bam2seqz normal_bam tumor_bam reference_fasta gc_wiggle
               (sample_folder @ [''sequenza_files'', ''out.seqz.gz'']))]
         @ map Unlinked dels
    \<and> subseq dels [tumor_bam, normal_bam]
    \<and> (\<forall>d cmd. Run_Cmd d cmd \<in> set (drop (length (events w)) (events w'))
          \<longrightarrow> cmd ! 1 \<noteq> ''seqz_binning'')"
proof -
  let ?c1 = "samtools_view threads reference_fasta normal_bam normal_cram"
  let ?c2 = "samtools_view threads reference_fasta tumor_bam tumor_cram"
  let ?c3 = "bam2seqz normal_bam tumor_bam reference_fasta gc_wiggle
               (sample_folder @ [''sequenza_files'', ''out.seqz.gz''])"
  let ?w3 = "w\<lparr>events := events w @
      [Run_Cmd ''Converting Normal CRAM to BAM'' ?c1,
       Run_Cmd ''Converting Tumor CRAM to BAM'' ?c2, Run_Cmd ''Running bam2seqz'' ?c3],
      files := f3\<rparr>"
  have body: "process_sample ex sample_folder reference_fasta gc_wiggle bin_width_arg threads_arg w
      = (case unlink_existing [tumor_bam, normal_bam] ?w3 of
           (Inl e', w'') \<Rightarrow> (Inl e', w'')
         | (Inr u, w'') \<Rightarrow> (Inr False, w''))"
    using tc nc mk s1 s2 s3 c unfolding tb nb th
    by (simp add: process_sample_def Let_def and_then_def mkdir_step_def run_cmd_def
          del: unlink_existing.simps)
  have "\<forall>p\<in>set [tumor_bam, normal_bam]. p \<noteq> [] \<and> map_of (files ?w3) p \<noteq> Some Dir"
    using nd by (simp add: tb nb with_suffix_not_root)
  from unlink_existing_returns [OF this] obtain w' where
    u: "unlink_existing [tumor_bam, normal_bam] ?w3 = (Inr (), w')" by blast
  have "\<forall>p\<in>set [tumor_bam, normal_bam]. p \<noteq> []"
    by (simp add: tb nb with_suffix_not_root)
  from unlink_existing_done [OF u this] obtain dels where
    d: "\<not> path_exists (files w') tumor_bam" "\<not> path_exists (files w') normal_bam"
       "subseq dels [tumor_bam, normal_bam]" "events w' = events ?w3 @ map Unlinked dels"
    by auto
  have ev: "events w' = events w @
      [Run_Cmd ''Converting Normal CRAM to BAM'' ?c1,
       Run_Cmd ''Converting Tumor CRAM to BAM'' ?c2, Run_Cmd ''Running bam2seqz'' ?c3]
      @ map Unlinked dels"
    using d(4) by simp
  have nobin: "\<forall>d cmd. Run_Cmd d cmd \<in> set (drop (length (events w)) (events w'))
          \<longrightarrow> cmd ! 1 \<noteq> ''seqz_binning''"
    unfolding ev by (auto simp: samtools_view_def bam2seqz_def)
  have ret: "process_sample ex sample_folder reference_fasta gc_wiggle bin_width_arg threads_arg w
      = (Inr False, w')"
    unfolding body u by simp
  from ret d(1,2) ev d(3) nobin show ?thesis by blast
qed


theorem bam2seqz_failure_cleanup_witness:
  "fst (process_sample
          (\<lambda>cmd f. if cmd ! 0 = ''samtools''
                    then (Exited 0, AList.update [''s'', ''preprocessing'', ''recalibrated'',
                            (if cmd ! 9 = ''/s/preprocessing/recalibrated/Normal/n.cram''
                             then ''Normal'' else ''Tumour''),
                            (if cmd ! 9 = ''/s/preprocessing/recalibrated/Normal/n.cram''
                             then ''n.bam'' else ''t.bam'')] File f)
                    else (Exited 2, f))
          [''s''] [''ref'', ''hg19.fa''] [''ref'', ''gc.wig.gz''] None None
          \<lparr>files =
             [([''s''], Dir), ([''s'', ''preprocessing''], Dir),
              ([''s'', ''preprocessing'', ''recalibrated''], Dir),
              ([''s'', ''preprocessing'', ''recalibrated'', ''Tumour''], Dir),
              ([''s'', ''preprocessing'', ''recalibrated'', ''Normal''], Dir),
              ([''s'', ''preprocessing'', ''recalibrated'', ''Tumour'', ''t.cram''], File),
              ([''s'', ''preprocessing'', ''recalibrated'', ''Normal'', ''n.cram''], File)],
           events = []\<rparr>) = Inr False"
proof -
  let ?ex = "\<lambda>cmd f. if cmd ! 0 = ''samtools''
                    then (Exited 0, AList.update [''s'', ''preprocessing'', ''recalibrated'',
                            (if cmd ! 9 = ''/s/preprocessing/recalibrated/Normal/n.cram''
                             then ''Normal'' else ''Tumour''),
                            (if cmd ! 9 = ''/s/preprocessing/recalibrated/Normal/n.cram''
                             then ''n.bam'' else ''t.bam'')] File f)
                    else (Exited (2::int), f)"
  let ?fs = "[([''s''], Dir), ([''s'', ''preprocessing''], Dir),
              ([''s'', ''preprocessing'', ''recalibrated''], Dir),
              ([''s'', ''preprocessing'', ''recalibrated'', ''Tumour''], Dir),
              ([''s'', ''preprocessing'', ''recalibrated'', ''Normal''], Dir),
              ([''s'', ''preprocessing'', ''recalibrated'', ''Tumour'', ''t.cram''], File),
              ([''s'', ''preprocessing'', ''recalibrated'', ''Normal'', ''n.cram''], File)]"
  let ?w = "\<lparr>files = ?fs, events = []\<rparr>"
  let ?tc = "[''s'', ''preprocessing'', ''recalibrated'', ''Tumour'', ''t.cram'']"
  let ?nc = "[''s'', ''preprocessing'', ''recalibrated'', ''Normal'', ''n.cram'']"
  let ?tb = "[''s'', ''preprocessing'', ''recalibrated'', ''Tumour'', ''t.bam'']"
  let ?nb = "[''s'', ''preprocessing'', ''recalibrated'', ''Normal'', ''n.bam'']"
  let ?f0 = "?fs @ [([''s'', ''sequenza_files''], Dir)]"
  let ?f1 = "?f0 @ [(?nb, File)]"
  let ?f2 = "?f1 @ [(?tb, File)]"
  have tc: "first_cram (files ?w) ([''s''] @ [''preprocessing'', ''recalibrated'', ''Tumour'']) = Some ?tc"
    by code_simp
  have nc: "first_cram (files ?w) ([''s''] @ [''preprocessing'', ''recalibrated'', ''Normal'']) = Some ?nc"
    by code_simp
  have tb: "?tb = with_suffix ?tc ''.bam''" by code_simp
  have nb: "?nb = with_suffix ?nc ''.bam''" by code_simp
  have th: "(4::int) = (case None of None \<Rightarrow> 4 | Some t \<Rightarrow> t)" by simp
  have mk: "mkdir_exist_ok (files ?w) ([''s''] @ [''sequenza_files'']) = Inr ?f0" by code_simp
  have s1: "?ex (samtools_view 4 [''ref'', ''hg19.fa''] ?nb ?nc) ?f0 = (Exited 0, ?f1)"
    by code_simp
  have s2: "?ex (samtools_view 4 [''ref'', ''hg19.fa''] ?tb ?tc) ?f1 = (Exited 0, ?f2)"
    by code_simp
  have s3: "?ex (bam2seqz ?nb ?tb [''ref'', ''hg19.fa''] [''ref'', ''gc.wig.gz'']
                   ([''s''] @ [''sequenza_files'', ''out.seqz.gz''])) ?f2 = (Exited 2, ?f2)"
    by code_simp
  have c: "(2::int) \<noteq> 0" by simp
  have nd: "map_of ?f2 ?tb \<noteq> Some Dir" "map_of ?f2 ?nb \<noteq> Some Dir" by simp_all
  from bam2seqz_failure_cleanup [of ?w "[''s'']" ?tc ?nc ?tb ?nb 4 None ?f0 ?ex
      "[''ref'', ''hg19.fa'']" ?f1 ?f2 "[''ref'', ''gc.wig.gz'']" 2 ?f2 None,
      OF tc nc tb nb th mk s1 s2 s3 c nd]
  show ?thesis by auto
qed

lemma handler_not_True:
  "(case x of (Inl e', w'') \<Rightarrow> (Inl e', w'') | (Inr u, w'') \<Rightarrow> (Inr False, w''))
     \<noteq> (Inr True, w')"
  by (auto split: prod.splits sum.splits)

text \<open>
  Claim C5: a run of \<open>process_sample\<close> that returns \<open>True\<close> has started exactly four
  commands, in this order: the conversion of the normal alignment file, the
  conversion of the tumor alignment file, \<open>bam2seqz\<close> on the two results with the
  reference and the GC file, and the binning at the window width (50 when the argument
  is left out); each was started in the file system its predecessor left with exit
  status 0. After them the two intermediate files are deleted, the tumor file first,
  and neither exists when the function returns.
\<close>

theorem process_sample_order:
  assumes run: "process_sample ex sample_folder reference_fasta gc_wiggle bin_width_arg threads_arg w
                  = (Inr True, w')"
    and bw: "bin_width = (case bin_width_arg of None \<Rightarrow> 50 | Some b \<Rightarrow> b)"
    and th: "threads = (case threads_arg of None \<Rightarrow> 4 | Some t \<Rightarrow> t)"
  shows "\<exists>tumor_cram normal_cram f0 f1 f2 f3 f4 dels.
      first_cram (files w) (sample_folder @ [''preprocessing'', ''recalibrated'', ''Tumour''])
        = Some tumor_cram
    \<and> first_cram (files w) (sample_folder @ [''preprocessing'', ''recalibrated'', ''Normal''])
        = Some normal_cram
    \<and> mkdir_exist_ok (files w) (sample_folder @ [''sequenza_files'']) = Inr f0
    \<and> ex (samtools_view threads reference_fasta (with_suffix normal_cram ''.bam'') normal_cram) f0
        = (Exited 0, f1)
    \<and> ex (samtools_view threads reference_fasta (with_suffix tumor_cram ''.bam'') tumor_cram) f1
        = (Exited 0, f2)
    \<and> ex (bam2seqz (with_suffix normal_cram ''.bam'') (with_suffix tumor_cram ''.bam'')
             reference_fasta gc_wiggle (sample_folder @ [''sequenza_files'', ''out.seqz.gz''])) f2
        = (Exited 0, f3)
    \<and> ex (seqz_binning (sample_folder @ [''sequenza_files'', ''out.seqz.gz'']) bin_width
             (sample_folder @ [''sequenza_files'', ''binned.out.seqz.gz''])) f3
        = (Exited 0, f4)
    \<and> events w' = events w @
         [Run_Cmd ''Converting Normal CRAM to BAM''
            (samtools_view threads reference_fasta (with_suffix normal_cram ''.bam'') normal_cram),
          Run_Cmd ''Converting Tumor CRAM to BAM''
            (samtools_view threads reference_fasta (with_suffix tumor_cram ''.bam'') tumor_cram),
          Run_Cmd ''Running bam2seqz''
            (bam2seqz (with_suffix normal_cram ''.bam'') (with_suffix tumor_cram ''.bam'')
               reference_fasta gc_wiggle (sample_folder @ [''sequenza_files'', ''out.seqz.gz''])),
          Run_Cmd ''Running seqz_binning''
            (seqz_binning (sample_folder @ [''sequenza_files'', ''out.seqz.gz'']) bin_width
               (sample_folder @ [''sequenza_files'', ''binned.out.seqz.gz'']))]
         @ map Unlinked dels
    \<and> subseq dels [with_suffix tumor_cram ''.bam'', with_suffix normal_cram ''.bam'']
    \<and> \<not> path_exists (files w') (with_suffix tumor_cram ''.bam'')
    \<and> \<not> path_exists (files w') (with_suffix normal_cram ''.bam'')"
proof -
  let ?td = "sample_folder @ [''preprocessing'', ''recalibrated'', ''Tumour'']"
  let ?nd = "sample_folder @ [''preprocessing'', ''recalibrated'', ''Normal'']"
  from run obtain tc where tc: "first_cram (files w) ?td = Some tc"
    by (cases "first_cram (files w) ?td") (auto simp: process_sample_def Let_def)
  from run tc obtain nc where nc: "first_cram (files w) ?nd = Some nc"
    by (cases "first_cram (files w) ?nd") (auto simp: process_sample_def Let_def)
  let ?tb = "with_suffix tc ''.bam''"
  let ?nb = "with_suffix nc ''.bam''"
  let ?c1 = "samtools_view threads reference_fasta ?nb nc"
  let ?c2 = "samtools_view threads reference_fasta ?tb tc"
  let ?c3 = "bam2seqz ?nb ?tb reference_fasta gc_wiggle
               (sample_folder @ [''sequenza_files'', ''out.seqz.gz''])"
  let ?c4 = "seqz_binning (sample_folder @ [''sequenza_files'', ''out.seqz.gz'']) bin_width
               (sample_folder @ [''sequenza_files'', ''binned.out.seqz.gz''])"
  let ?body = "and_then (mkdir_step (sample_folder @ [''sequenza_files'']) w) (\<lambda>w.
               and_then (run_cmd ex ?c1 ''Converting Normal CRAM to BAM'' w) (\<lambda>w.
               and_then (run_cmd ex ?c2 ''Converting Tumor CRAM to BAM'' w) (\<lambda>w.
               and_then (run_cmd ex ?c3 ''Running bam2seqz'' w) (\<lambda>w.
               and_then (run_cmd ex ?c4 ''Running seqz_binning'' w) (\<lambda>w.
               unlink_existing [?tb, ?nb] w)))))"
  have ps: "process_sample ex sample_folder reference_fasta gc_wiggle bin_width_arg threads_arg w
      = (case ?body of
              (Inr u, w') \<Rightarrow> (Inr True, w')
            | (Inl e, w') \<Rightarrow>
                (case unlink_existing [?tb, ?nb] w' of
                   (Inl e', w'') \<Rightarrow> (Inl e', w'')
                 | (Inr u, w'') \<Rightarrow> (Inr False, w'')))"
    using tc nc unfolding bw th
    by (simp add: process_sample_def Let_def del: unlink_existing.simps)
  have body: "?body = (Inr (), w')"
  proof (cases ?body)
    case (Pair r wb)
    show ?thesis
    proof (cases r)
      case (Inl e)
      with run Pair handler_not_True [of "unlink_existing [?tb, ?nb] wb" w'] show ?thesis
        unfolding ps by simp
    next
      case (Inr u)
      with run Pair show ?thesis unfolding ps by simp
    qed
  qed
  from body obtain f0 f1 f2 f3 f4 where
    mk: "mkdir_exist_ok (files w) (sample_folder @ [''sequenza_files'']) = Inr f0"
    and s1: "ex ?c1 f0 = (Exited 0, f1)"
    and s2: "ex ?c2 f1 = (Exited 0, f2)"
    and s3: "ex ?c3 f2 = (Exited 0, f3)"
    and s4: "ex ?c4 f3 = (Exited 0, f4)"
    and un: "unlink_existing [?tb, ?nb]
        (w\<lparr>events := events w @ [Run_Cmd ''Converting Normal CRAM to BAM'' ?c1,
             Run_Cmd ''Converting Tumor CRAM to BAM'' ?c2, Run_Cmd ''Running bam2seqz'' ?c3,
             Run_Cmd ''Running seqz_binning'' ?c4],
           files := f4\<rparr>) = (Inr (), w')"
    by (auto simp: and_then_Inr run_cmd_Inr mkdir_step_Inr simp del: unlink_existing.simps)
  have "\<forall>p\<in>set [?tb, ?nb]. p \<noteq> []" by (simp add: with_suffix_not_root)
  from unlink_existing_done [OF un this] obtain dels where
    d: "\<not> path_exists (files w') ?tb" "\<not> path_exists (files w') ?nb"
       "subseq dels [?tb, ?nb]"
       "events w' = events w @ [Run_Cmd ''Converting Normal CRAM to BAM'' ?c1,
             Run_Cmd ''Converting Tumor CRAM to BAM'' ?c2, Run_Cmd ''Running bam2seqz'' ?c3,
             Run_Cmd ''Running seqz_binning'' ?c4] @ map Unlinked dels"
    by auto
  from tc nc mk s1 s2 s3 s4 d(4,3,1,2) show ?thesis by blast
qed


theorem process_sample_order_witness:
  "fst (process_sample
          (\<lambda>cmd f. (Exited 0,
             if cmd ! 0 = ''samtools''
             then f @ [([''s'', ''preprocessing'', ''recalibrated'', ''Tumour'', ''t.bam''], File)]
             else f))
          [''s''] [''ref'', ''hg19.fa''] [''ref'', ''gc.wig.gz''] None (Some 8)
          \<lparr>files =
             [([''s''], Dir), ([''s'', ''preprocessing''], Dir),
              ([''s'', ''preprocessing'', ''recalibrated''], Dir),
              ([''s'', ''preprocessing'', ''recalibrated'', ''Tumour''], Dir),
              ([''s'', ''preprocessing'', ''recalibrated'', ''Normal''], Dir),
              ([''s'', ''preprocessing'', ''recalibrated'', ''Tumour'', ''t.cram''], File),
              ([''s'', ''preprocessing'', ''recalibrated'', ''Normal'', ''n.cram''], File)],
           events = []\<rparr>) = Inr True
   \<and> \<not> path_exists (files (snd (process_sample
          (\<lambda>cmd f. (Exited 0,
             if cmd ! 0 = ''samtools''
             then f @ [([''s'', ''preprocessing'', ''recalibrated'', ''Tumour'', ''t.bam''], File)]
             else f))
          [''s''] [''ref'', ''hg19.fa''] [''ref'', ''gc.wig.gz''] None (Some 8)
          \<lparr>files =
             [([''s''], Dir), ([''s'', ''preprocessing''], Dir),
              ([''s'', ''preprocessing'', ''recalibrated''], Dir),
              ([''s'', ''preprocessing'', ''recalibrated'', ''Tumour''], Dir),
              ([''s'', ''preprocessing'', ''recalibrated'', ''Normal''], Dir),
              ([''s'', ''preprocessing'', ''recalibrated'', ''Tumour'', ''t.cram''], File),
              ([''s'', ''preprocessing'', ''recalibrated'', ''Normal'', ''n.cram''], File)],
           events = []\<rparr>)))
        (with_suffix [''s'', ''preprocessing'', ''recalibrated'', ''Tumour'', ''t.cram''] ''.bam'')"
proof -
  let ?ex = "\<lambda>cmd f. (Exited (0::int),
             if cmd ! 0 = ''samtools''
             then f @ [([''s'', ''preprocessing'', ''recalibrated'', ''Tumour'', ''t.bam''], File)]
             else f)"
  let ?w = "\<lparr>files =
             [([''s''], Dir), ([''s'', ''preprocessing''], Dir),
              ([''s'', ''preprocessing'', ''recalibrated''], Dir),
              ([''s'', ''preprocessing'', ''recalibrated'', ''Tumour''], Dir),
              ([''s'', ''preprocessing'', ''recalibrated'', ''Normal''], Dir),
              ([''s'', ''preprocessing'', ''recalibrated'', ''Tumour'', ''t.cram''], File),
              ([''s'', ''preprocessing'', ''recalibrated'', ''Normal'', ''n.cram''], File)],
           events = []\<rparr>"
  let ?run = "process_sample ?ex [''s''] [''ref'', ''hg19.fa''] [''ref'', ''gc.wig.gz''] None (Some 8) ?w"
  have ok: "fst ?run = Inr True" by code_simp
  have run: "?run = (Inr True, snd ?run)"
    using surjective_pairing [of ?run] by (simp only: ok)
  have tc: "first_cram (files ?w) ([''s''] @ [''preprocessing'', ''recalibrated'', ''Tumour''])
      = Some [''s'', ''preprocessing'', ''recalibrated'', ''Tumour'', ''t.cram'']"
    by code_simp
  from process_sample_order [OF run refl refl] obtain tumor_cram where
    t: "first_cram (files ?w) ([''s''] @ [''preprocessing'', ''recalibrated'', ''Tumour''])
          = Some tumor_cram"
       "\<not> path_exists (files (snd ?run)) (with_suffix tumor_cram ''.bam'')"
    by blast
  from t(1) have "tumor_cram = [''s'', ''preprocessing'', ''recalibrated'', ''Tumour'', ''t.cram'']"
    unfolding tc by simp
  with t(2) ok show ?thesis by blast
qed


section \<open>Properties of the batch driver and the Workspace Preparer\<close>













subsection \<open>Running the preparation again\<close>

lemma stat_dir_present: "path_is_dir f p \<Longrightarrow> lookup f p \<noteq> None"
  by (auto simp: path_is_dir_def stat_unfold split: option.splits)

lemma mkdir_parents_present: "path_is_dir f p \<Longrightarrow> mkdir_parents f p = Inr f"
  by (subst mkdir_parents.simps) (simp add: os_mkdir_def stat_dir_present)

lemma link_files_skips:
  "\<forall>n\<in>set ns. suffix_of n \<in> {''.cram'', ''.crai''} \<longrightarrow> path_exists (files w) (dst @ [n])
     \<Longrightarrow> link_files src dst ns w = (Inr (), w)"
  by (induction ns) (auto simp: Let_def)

text \<open>
  What the guards give: when the two working directories are directories and every
  target \<open>exists()\<close>, the preparation changes nothing and raises nothing.
\<close>

lemma prepare_workspace_skips:
  assumes "path_is_dir (files w) (path_join (SEQUENZA_OUTPUT cfg) pid
             @ [''preprocessing'', ''recalibrated'', ''Tumour''])"
    and "path_is_dir (files w) (path_join (SEQUENZA_OUTPUT cfg) pid
             @ [''preprocessing'', ''recalibrated'', ''Normal''])"
    and "\<forall>n\<in>set (glob_names (files w) t matches_dotted).
           suffix_of n \<in> {''.cram'', ''.crai''} \<longrightarrow>
           path_exists (files w) (path_join (SEQUENZA_OUTPUT cfg) pid
             @ [''preprocessing'', ''recalibrated'', ''Tumour'', n])"
    and "\<forall>n\<in>set (glob_names (files w) nrm matches_dotted).
           suffix_of n \<in> {''.cram'', ''.crai''} \<longrightarrow>
           path_exists (files w) (path_join (SEQUENZA_OUTPUT cfg) pid
             @ [''preprocessing'', ''recalibrated'', ''Normal'', n])"
  shows "prepare_workspace cfg pid t nrm w = (Inr (), w)"
proof -
  let ?td = "path_join (SEQUENZA_OUTPUT cfg) pid @ [''preprocessing'', ''recalibrated'', ''Tumour'']"
  let ?nd = "path_join (SEQUENZA_OUTPUT cfg) pid @ [''preprocessing'', ''recalibrated'', ''Normal'']"
  have m1: "mkdir_parents_step ?td w = (Inr (), w)"
    using assms(1) by (simp add: mkdir_parents_step_def mkdir_parents_present)
  have m2: "mkdir_parents_step ?nd w = (Inr (), w)"
    using assms(2) by (simp add: mkdir_parents_step_def mkdir_parents_present)
  have l1: "link_dir t ?td w = (Inr (), w)"
    unfolding link_dir_def using assms(3) by (intro link_files_skips) simp
  have l2: "link_dir nrm ?nd w = (Inr (), w)"
    unfolding link_dir_def using assms(4) by (intro link_files_skips) simp
  show ?thesis
    by (simp add: prepare_workspace_def Let_def and_then_def m1 m2 l1 l2)
qed

text \<open>
  Claim C7 fails on a dangling link. The tumor directory holds \<open>t.cram\<close>, a link to a
  file that is gone. The first preparation links it into the working directory. On
  the second preparation \<open>target.exists()\<close> follows that link, finds nothing and
  answers no, and \<open>symlink_to\<close> raises \<open>FileExistsError\<close> for the name that is taken;
  \<open>run_sequenza\<close> does not catch it.
\<close>

theorem workspace_rerun_dangling_link:
  "fst (prepare_workspace
          \<lparr>SEQUENZA_OUTPUT = [''out''],
            REFERENCE_FASTA = [''ref'', ''hg19.fa''], GC_WIGGLE = [''ref'', ''gc.wig.gz''],
            THREADS = 8\<rparr>
          ''P1'' [''data'', ''P1_Tumour''] [''data'', ''P1_Normal'']
          \<lparr>files =
             [([''data''], Dir), ([''data'', ''P1_Tumour''], Dir), ([''data'', ''P1_Normal''], Dir),
              ([''data'', ''P1_Tumour'', ''t.cram''], Link [''work'', ''ab'', ''t.cram'']),
              ([''data'', ''P1_Normal'', ''n.cram''], File)],
           events = []\<rparr>) = Inr ()
   \<and> fst (prepare_workspace
          \<lparr>SEQUENZA_OUTPUT = [''out''],
            REFERENCE_FASTA = [''ref'', ''hg19.fa''], GC_WIGGLE = [''ref'', ''gc.wig.gz''],
            THREADS = 8\<rparr>
          ''P1'' [''data'', ''P1_Tumour''] [''data'', ''P1_Normal'']
          (snd (prepare_workspace
             \<lparr>SEQUENZA_OUTPUT = [''out''],
               REFERENCE_FASTA = [''ref'', ''hg19.fa''], GC_WIGGLE = [''ref'', ''gc.wig.gz''],
               THREADS = 8\<rparr>
             ''P1'' [''data'', ''P1_Tumour''] [''data'', ''P1_Normal'']
             \<lparr>files =
                [([''data''], Dir), ([''data'', ''P1_Tumour''], Dir), ([''data'', ''P1_Normal''], Dir),
                 ([''data'', ''P1_Tumour'', ''t.cram''], Link [''work'', ''ab'', ''t.cram'']),
                 ([''data'', ''P1_Normal'', ''n.cram''], File)],
              events = []\<rparr>))) = Inl FileExistsError"
  by code_simp


end
